theory Spec2Isabelle
  imports Main
begin

section \<open>Atomic Design structure analyzer: the model\<close>

text \<open>
  A shallow embedding of \<^verbatim>\<open>scripts/analyze_structure.py\<close>. The analyzer walks
  \<^verbatim>\<open>src/components/{atoms,molecules,organisms}\<close>, locates the directories that hold a
  component file and runs four checks on each of them, appending violations to one report.

  Text is a \<^typ>\<open>string\<close>: a character stands for the code point of the same number, so
  the model covers file names and file contents within the code points 0 to 255.
\<close>

subsection \<open>Strings\<close>

text \<open>\<^verbatim>\<open>str.startswith\<close> and \<^verbatim>\<open>str.endswith\<close> with one candidate.\<close>

fun startswith :: "string \<Rightarrow> string \<Rightarrow> bool" where
  "startswith s [] = True"
| "startswith [] (p # ps) = False"
| "startswith (c # cs) (p # ps) = (c = p \<and> startswith cs ps)"

definition endswith :: "string \<Rightarrow> string \<Rightarrow> bool" where
  "endswith s suf = startswith (rev s) (rev suf)"

text \<open>
  \<^verbatim>\<open>str.count(sub)\<close>: the number of occurrences that do not overlap, found from the left.
  The empty string occurs \<^verbatim>\<open>len(s) + 1\<close> times.
\<close>

function str_count :: "string \<Rightarrow> string \<Rightarrow> nat" where
  "str_count [] sub = (if sub = [] then 1 else 0)"
| "str_count (c # cs) sub =
     (if sub = [] then 1 + str_count cs sub
      else if startswith (c # cs) sub then 1 + str_count (drop (length sub) (c # cs)) sub
      else str_count cs sub)"
  by pat_completeness auto
termination
  by (relation "measure (\<lambda>(s, sub). length s)") auto

text \<open>\<^verbatim>\<open>str(n)\<close> of a count, as an f-string renders it: decimal, no leading zero.\<close>

function str_nat :: "nat \<Rightarrow> string" where
  "str_nat n =
     (if n < 10 then [''0123456789'' ! n]
      else str_nat (n div 10) @ [''0123456789'' ! (n mod 10)])"
  by pat_completeness auto
termination
  by (relation "measure id") auto

declare str_nat.simps [simp del]

text \<open>
  \<^verbatim>\<open>str.capitalize\<close>: the first character in upper case, the others in lower case. The
  case tables are those of the ASCII letters; the analyzer capitalizes tier names only.
\<close>

definition upper :: "char \<Rightarrow> char" where
  "upper c =
     (case map_of (zip ''abcdefghijklmnopqrstuvwxyz'' ''ABCDEFGHIJKLMNOPQRSTUVWXYZ'') c of
        Some u \<Rightarrow> u
      | None \<Rightarrow> c)"

definition lower :: "char \<Rightarrow> char" where
  "lower c =
     (case map_of (zip ''ABCDEFGHIJKLMNOPQRSTUVWXYZ'' ''abcdefghijklmnopqrstuvwxyz'') c of
        Some l \<Rightarrow> l
      | None \<Rightarrow> c)"

fun capitalize :: "string \<Rightarrow> string" where
  "capitalize [] = []"
| "capitalize (c # cs) = upper c # map lower cs"

subsection \<open>Paths\<close>

text \<open>
  A \<^verbatim>\<open>Path\<close> is modelled by its \<^verbatim>\<open>str()\<close>. \<open>joinpath p n\<close> is \<^verbatim>\<open>str(Path(p) / n)\<close> for a
  normalised \<open>p\<close> and a plain name \<open>n\<close>: the current directory \<^verbatim>\<open>.\<close> disappears and a
  root keeps its single separator.
\<close>

definition joinpath :: "string \<Rightarrow> string \<Rightarrow> string" where
  "joinpath p n =
     (if p = ''.'' then n
      else if p \<noteq> [] \<and> last p = CHR ''/'' then p @ n
      else p @ ''/'' @ n)"

text \<open>\<^verbatim>\<open>str.rfind\<close> of one character: the last index, or \<open>-1\<close>.\<close>

definition rfind :: "string \<Rightarrow> char \<Rightarrow> int" where
  "rfind s c =
     (if c \<in> set s then int (length s) - 1 - int (length (takeWhile (\<lambda>x. x \<noteq> c) (rev s)))
      else - 1)"

text \<open>
  \<^verbatim>\<open>PurePath.suffix\<close> of a file name: from the last dot on, unless that dot is the first
  or the last character of the name.
\<close>

definition path_suffix :: "string \<Rightarrow> string" where
  "path_suffix name =
     (let i = rfind name CHR ''.''
      in if 0 < i \<and> i < int (length name) - 1 then drop (nat i) name else [])"

subsection \<open>Regular expressions\<close>

text \<open>
  The patterns of the analyzer are sequences of single characters, character classes and
  greedy repetitions of a class, with alternatives at the top only. \<open>match_items\<close> is the
  backtracking matcher of \<^verbatim>\<open>re\<close> on such a sequence: it returns the rest of the input after
  the first match in priority order (a repetition takes as many characters as it can, then
  gives them back one by one).
\<close>

datatype item = One "char \<Rightarrow> bool" | Star "char \<Rightarrow> bool" | Plus "char \<Rightarrow> bool"

type_synonym regex = "item list list"

fun match_items :: "item list \<Rightarrow> string \<Rightarrow> string option" where
  "match_items [] s = Some s"
| "match_items (One c # p) [] = None"
| "match_items (One c # p) (x # xs) = (if c x then match_items p xs else None)"
| "match_items (Plus c # p) [] = None"
| "match_items (Plus c # p) (x # xs) = (if c x then match_items (Star c # p) xs else None)"
| "match_items (Star c # p) [] = match_items p []"
| "match_items (Star c # p) (x # xs) =
     (if c x then (case match_items (Star c # p) xs of
                     Some r \<Rightarrow> Some r
                   | None \<Rightarrow> match_items p (x # xs))
      else match_items p (x # xs))"

text \<open>The alternatives of a pattern are tried from left to right at one position.\<close>

fun re_match :: "regex \<Rightarrow> string \<Rightarrow> string option" where
  "re_match [] s = None"
| "re_match (a # alts) s =
     (case match_items a s of Some r \<Rightarrow> Some r | None \<Rightarrow> re_match alts s)"

text \<open>\<^verbatim>\<open>re.search\<close>, read as a truth value: is there a match at some position?\<close>

fun re_search :: "regex \<Rightarrow> string \<Rightarrow> bool" where
  "re_search p [] = (re_match p [] \<noteq> None)"
| "re_search p (c # cs) = (re_match p (c # cs) \<noteq> None \<or> re_search p cs)"

text \<open>
  \<^verbatim>\<open>re.findall\<close> for a pattern without groups: the matched texts, from the left, none
  overlapping another. After an empty match the scan moves on by one character.
\<close>

function re_findall :: "regex \<Rightarrow> string \<Rightarrow> string list" where
  "re_findall p s =
     (case re_match p s of
        None \<Rightarrow> (case s of [] \<Rightarrow> [] | c # cs \<Rightarrow> re_findall p cs)
      | Some r \<Rightarrow>
          if length r < length s then take (length s - length r) s # re_findall p r
          else [] # (case s of [] \<Rightarrow> [] | c # cs \<Rightarrow> re_findall p cs))"
  by pat_completeness auto
termination
  by (relation "measure (\<lambda>(p, s). length s)") auto

declare re_findall.simps [simp del]

text \<open>A literal text inside a pattern.\<close>

definition lit :: "string \<Rightarrow> item list" where
  "lit s = map (\<lambda>c. One (\<lambda>x. x = c)) s"

text \<open>
  The classes \<^verbatim>\<open>\s\<close> and \<^verbatim>\<open>\w\<close> of a \<^verbatim>\<open>str\<close> pattern, on the code points below 256;
  \<^verbatim>\<open>.\<close> is every character but the line feed.
\<close>

definition is_space :: "char \<Rightarrow> bool" where
  "is_space c =
     (let n = (of_char c :: nat)
      in (9 \<le> n \<and> n \<le> 13) \<or> (28 \<le> n \<and> n \<le> 32) \<or> n = 133 \<or> n = 160)"

definition is_word :: "char \<Rightarrow> bool" where
  "is_word c =
     (let n = (of_char c :: nat)
      in (48 \<le> n \<and> n \<le> 57) \<or> (65 \<le> n \<and> n \<le> 90) \<or> n = 95 \<or> (97 \<le> n \<and> n \<le> 122)
         \<or> n = 170 \<or> n = 178 \<or> n = 179 \<or> n = 181 \<or> n = 185 \<or> n = 186
         \<or> (188 \<le> n \<and> n \<le> 190) \<or> (192 \<le> n \<and> n \<le> 214)
         \<or> (216 \<le> n \<and> n \<le> 246) \<or> (248 \<le> n \<and> n \<le> 255))"

definition is_dot :: "char \<Rightarrow> bool" where
  "is_dot c = (c \<noteq> CHR 0x0A)"

definition is_quote :: "char \<Rightarrow> bool" where
  "is_quote c = (c = CHR 0x27 \<or> c = CHR 0x22)"

subsection \<open>Violations and the report\<close>

text \<open>
  The dataclasses \<^verbatim>\<open>Violation\<close> and \<^verbatim>\<open>AnalysisReport\<close>. Kind and severity are strings in
  the source; the counters are Python integers.
\<close>

record Violation =
  type :: string
  path :: string
  message :: string
  severity :: string

record AnalysisReport =
  violations :: "Violation list"
  components_found :: int
  components_with_tests :: int
  components_with_barrels :: int

definition empty_report :: AnalysisReport where
  "empty_report =
     \<lparr>violations = [], components_found = 0, components_with_tests = 0,
      components_with_barrels = 0\<rparr>"

definition add :: "AnalysisReport \<Rightarrow> Violation \<Rightarrow> AnalysisReport" where
  "add report violation = report\<lparr>violations := violations report @ [violation]\<rparr>"


subsection \<open>The file system\<close>

text \<open>
  What the analyzer can see of a directory entry:
  \<^item> \<open>File c\<close>: a regular file; \<open>c\<close> is what \<^verbatim>\<open>read_text(encoding='utf-8')\<close> returns, \<open>None\<close>
    when it raises (no permission, bytes that are not UTF-8);
  \<^item> \<open>Dir es\<close>: a directory and its entries, in the order in which it is listed;
  \<^item> \<open>Blocked\<close>: a directory that \<^verbatim>\<open>os.walk\<close> does not list: a symbolic link to a
    directory met below the top of the walk, or a directory whose listing fails;
  \<^item> \<open>Other\<close>: an entry that is neither a directory nor a regular file, such as a dangling
    symbolic link.

  The file system does not change during a run. A function of the source that reads a path
  takes, next to the path, what the file system holds there.
\<close>

datatype node = File "string option" | Dir "(string \<times> node) list" | Blocked | Other

fun is_dir :: "node \<Rightarrow> bool" where
  "is_dir (Dir es) = True"
| "is_dir Blocked = True"
| "is_dir _ = False"

fun is_file :: "node \<Rightarrow> bool" where
  "is_file (File c) = True"
| "is_file _ = False"

text \<open>\<^verbatim>\<open>read_text\<close> inside \<^verbatim>\<open>try\<close>: \<open>None\<close> is the branch \<^verbatim>\<open>except Exception: return\<close>.\<close>

fun read_text :: "node \<Rightarrow> string option" where
  "read_text (File c) = c"
| "read_text _ = None"

text \<open>
  \<^verbatim>\<open>os.walk\<close>, top down: a directory first, then the walks of its subdirectories in listing
  order. Each step is the path of a directory with its entries; \<open>nondirs\<close> are the names
  that \<^verbatim>\<open>os.walk\<close> hands out as \<^verbatim>\<open>files\<close>. A path that is not a listable directory yields
  nothing.
\<close>

fun os_walk :: "string \<Rightarrow> node \<Rightarrow> (string \<times> (string \<times> node) list) list" where
  "os_walk base (Dir es) =
     (base, es) # concat (map (\<lambda>(n, e). os_walk (joinpath base n) e) es)"
| "os_walk base _ = []"

definition nondirs :: "(string \<times> node) list \<Rightarrow> string list" where
  "nondirs es = map fst (filter (\<lambda>(n, e). \<not> is_dir e) es)"

subsection \<open>The analyzer\<close>

definition COMPONENT_EXTENSIONS :: "string list" where
  "COMPONENT_EXTENSIONS = [''.tsx'', ''.jsx'']"

definition TEST_PATTERNS :: "string list" where
  "TEST_PATTERNS = [''.test.tsx'', ''.test.jsx'', ''.spec.tsx'', ''.spec.jsx'']"

definition BARREL_FILES :: "string set" where
  "BARREL_FILES = {''index.ts'', ''index.tsx'', ''index.js'', ''index.jsx''}"

text \<open>
  \<^verbatim>\<open>LOGIC_PATTERNS\<close>, in the order of the source:
  \<^verbatim>\<open>const\s+\w+\s*=\s*\([^)]*\)\s*=>\s*\{\<close>, \<^verbatim>\<open>function\s+\w+\s*\([^)]*\)\s*\{\<close> and
  \<^verbatim>\<open>async\s+function\<close>.
\<close>

definition LOGIC_PATTERNS :: "regex list" where
  "LOGIC_PATTERNS =
     [[lit ''const'' @ [Plus is_space, Plus is_word, Star is_space] @ lit ''=''
         @ [Star is_space] @ lit ''('' @ [Star (\<lambda>c. c \<noteq> CHR '')'')] @ lit '')''
         @ [Star is_space] @ lit ''=>'' @ [Star is_space] @ lit ''{''],
      [lit ''function'' @ [Plus is_space, Plus is_word, Star is_space] @ lit ''(''
         @ [Star (\<lambda>c. c \<noteq> CHR '')'')] @ lit '')'' @ [Star is_space] @ lit ''{''],
      [lit ''async'' @ [Plus is_space] @ lit ''function'']]"

definition STATE_HOOKS :: "string list" where
  "STATE_HOOKS = [''useState'', ''useReducer'', ''useEffect'', ''useMemo'', ''useCallback'']"

text \<open>
  One run: \<open>src_path\<close> is \<^verbatim>\<open>str(self.src_path)\<close>, \<open>src_exists\<close> what \<^verbatim>\<open>os.path.exists\<close>
  answers for it in \<^verbatim>\<open>main\<close>, \<open>components_exists\<close> what \<^verbatim>\<open>self.components_path.exists()\<close>
  answers, and \<open>level_nodes\<close> what the file system holds at \<^verbatim>\<open>components_path / name\<close>
  (\<open>None\<close> when \<^verbatim>\<open>exists()\<close> is false).
\<close>

record project =
  src_path :: string
  src_exists :: bool
  components_exists :: bool
  level_nodes :: "string \<rightharpoonup> node"

definition components_path :: "project \<Rightarrow> string" where
  "components_path env = joinpath (src_path env) ''components''"

definition check_top_level_structure :: "project \<Rightarrow> AnalysisReport \<Rightarrow> AnalysisReport" where
  "check_top_level_structure env report =
     fold (\<lambda>dir_name r.
             if level_nodes env dir_name = None
             then add r \<lparr>type = ''structure'', path = joinpath (components_path env) dir_name,
                         message = ''Missing '' @ dir_name @ ''/ directory'',
                         severity = ''warning''\<rparr>
             else r)
          [''atoms'', ''molecules'', ''organisms''] report"

text \<open>The test of \<^verbatim>\<open>_find_component_dirs\<close> on the \<^verbatim>\<open>files\<close> of one step of the walk.\<close>

definition has_component :: "string list \<Rightarrow> bool" where
  "has_component files =
     list_ex (\<lambda>f. list_ex (endswith f) COMPONENT_EXTENSIONS
                  \<and> \<not> list_ex (endswith f) TEST_PATTERNS) files"

definition find_component_dirs ::
  "string \<Rightarrow> node option \<Rightarrow> (string \<times> (string \<times> node) list) list" where
  "find_component_dirs base_path nd =
     (case nd of
        None \<Rightarrow> []
      | Some n \<Rightarrow> filter (\<lambda>(root, es). has_component (nondirs es)) (os_walk base_path n))"

definition hook_count :: "string \<Rightarrow> nat" where
  "hook_count content = sum_list (map (str_count content) STATE_HOOKS)"

definition function_matches :: "string \<Rightarrow> string list" where
  "function_matches content = concat (map (\<lambda>pattern. re_findall pattern content) LOGIC_PATTERNS)"

definition check_component_logic ::
  "AnalysisReport \<Rightarrow> string \<Rightarrow> node \<Rightarrow> string \<Rightarrow> AnalysisReport" where
  "check_component_logic report file_path nd level =
     (case read_text nd of
        None \<Rightarrow> report
      | Some content \<Rightarrow>
          if hook_count content > 2 \<and> length (function_matches content) > 2
          then add report
                 \<lparr>type = ''logic'', path = file_path,
                  message = ''Component has '' @ str_nat (hook_count content) @ '' hooks and ''
                    @ str_nat (length (function_matches content))
                    @ '' functions. Consider extracting logic to a custom hook.'',
                  severity = ''warning''\<rparr>
          else report)"

definition forbidden_imports :: "string \<rightharpoonup> string list" where
  "forbidden_imports =
     [''atoms'' \<mapsto> [''molecules'', ''organisms''],
      ''molecules'' \<mapsto> [''organisms''],
      ''organisms'' \<mapsto> []]"

text \<open>
  The pattern built for one forbidden tier:
  \<^verbatim>\<open>from\s+['\"].*/{forbidden}/|from\s+['\"]@/components/{forbidden}/\<close>. The tier names
  hold no character that is special in a pattern, so the name enters as a literal.
\<close>

definition import_pattern :: "string \<Rightarrow> regex" where
  "import_pattern forbidden =
     [lit ''from'' @ [Plus is_space, One is_quote, Star is_dot]
        @ lit ''/'' @ lit forbidden @ lit ''/'',
      lit ''from'' @ [Plus is_space, One is_quote]
        @ lit ''@/components/'' @ lit forbidden @ lit ''/'']"

definition check_imports ::
  "AnalysisReport \<Rightarrow> string \<Rightarrow> node \<Rightarrow> string \<Rightarrow> AnalysisReport" where
  "check_imports report file_path nd level =
     (case read_text nd of
        None \<Rightarrow> report
      | Some content \<Rightarrow>
          fold (\<lambda>forbidden r.
                  if re_search (import_pattern forbidden) content
                  then add r \<lparr>type = ''dependency'', path = file_path,
                              message = capitalize level @ '' should not import from ''
                                @ forbidden,
                              severity = ''error''\<rparr>
                  else r)
               (case forbidden_imports level of None \<Rightarrow> [] | Some fs \<Rightarrow> fs) report)"

text \<open>
  \<^verbatim>\<open>_analyze_component\<close>. \<open>files\<close> is the listing of \<^verbatim>\<open>component_path.iterdir()\<close>, every
  entry of the directory; \<open>file_names\<close> keeps the regular files. The last loop runs over
  every entry, whatever its kind.
\<close>

definition file_names :: "(string \<times> node) list \<Rightarrow> string set" where
  "file_names files = set (map fst (filter (\<lambda>(n, e). is_file e) files))"

definition check_file ::
  "string \<Rightarrow> string \<Rightarrow> string \<times> node \<Rightarrow> AnalysisReport \<Rightarrow> AnalysisReport" where
  "check_file component_path level file report =
     (if path_suffix (fst file) \<in> set COMPONENT_EXTENSIONS
      then if \<not> list_ex (endswith (fst file)) TEST_PATTERNS
           then check_imports
                  (check_component_logic report (joinpath component_path (fst file))
                     (snd file) level)
                  (joinpath component_path (fst file)) (snd file) level
           else report
      else report)"

definition analyze_component ::
  "AnalysisReport \<Rightarrow> string \<times> (string \<times> node) list \<Rightarrow> string \<Rightarrow> AnalysisReport" where
  "analyze_component report component level =
     (let component_path = fst component;
          files = snd component;
          report1 = report\<lparr>components_found := components_found report + 1\<rparr>;
          has_barrel = (file_names files \<inter> BARREL_FILES \<noteq> {});
          report2 =
            (if has_barrel
             then report1\<lparr>components_with_barrels := components_with_barrels report1 + 1\<rparr>
             else add report1 \<lparr>type = ''barrel'', path = component_path,
                                message = ''Missing barrel file (index.ts)'',
                                severity = ''warning''\<rparr>);
          has_test = (\<exists>f \<in> file_names files. list_ex (endswith f) TEST_PATTERNS);
          report3 =
            (if has_test
             then report2\<lparr>components_with_tests := components_with_tests report2 + 1\<rparr>
             else add report2 \<lparr>type = ''test'', path = component_path,
                                message = ''Missing test file'', severity = ''warning''\<rparr>)
      in fold (check_file component_path level) files report3)"

definition analyze_level :: "project \<Rightarrow> string \<Rightarrow> AnalysisReport \<Rightarrow> AnalysisReport" where
  "analyze_level env level report =
     (case level_nodes env level of
        None \<Rightarrow> report
      | Some nd \<Rightarrow>
          fold (\<lambda>component_dir r. analyze_component r component_dir level)
               (find_component_dirs (joinpath (components_path env) level) (Some nd)) report)"

definition analyze_components :: "project \<Rightarrow> AnalysisReport \<Rightarrow> AnalysisReport" where
  "analyze_components env report =
     fold (analyze_level env) [''atoms'', ''molecules'', ''organisms''] report"

definition analyze :: "project \<Rightarrow> AnalysisReport" where
  "analyze env =
     (if \<not> components_exists env
      then add empty_report \<lparr>type = ''structure'', path = components_path env,
                             message = ''components/ directory not found'',
                             severity = ''error''\<rparr>
      else analyze_components env (check_top_level_structure env empty_report))"

subsection \<open>The printed report\<close>



















section \<open>What a run records\<close>

text \<open>
  The violations that each step appends, written as lists of their own. They are stated
  from the description of the checks and proved equal to what the analyzer builds.
\<close>

definition forbidden_for :: "string \<Rightarrow> string list" where
  "forbidden_for level = (case forbidden_imports level of None \<Rightarrow> [] | Some fs \<Rightarrow> fs)"

definition dependency_violation :: "string \<Rightarrow> string \<Rightarrow> string \<Rightarrow> Violation" where
  "dependency_violation file_path level forbidden =
     \<lparr>type = ''dependency'', path = file_path,
      message = capitalize level @ '' should not import from '' @ forbidden,
      severity = ''error''\<rparr>"

definition logic_violation :: "string \<Rightarrow> nat \<Rightarrow> nat \<Rightarrow> Violation" where
  "logic_violation file_path hooks functions =
     \<lparr>type = ''logic'', path = file_path,
      message = ''Component has '' @ str_nat hooks @ '' hooks and '' @ str_nat functions
        @ '' functions. Consider extracting logic to a custom hook.'',
      severity = ''warning''\<rparr>"

definition logic_part :: "string \<Rightarrow> node \<Rightarrow> Violation list" where
  "logic_part file_path nd =
     (case read_text nd of
        None \<Rightarrow> []
      | Some content \<Rightarrow>
          if 2 < hook_count content \<and> 2 < length (function_matches content)
          then [logic_violation file_path (hook_count content)
                  (length (function_matches content))]
          else [])"

definition dependency_part :: "string \<Rightarrow> node \<Rightarrow> string \<Rightarrow> Violation list" where
  "dependency_part file_path nd level =
     (case read_text nd of
        None \<Rightarrow> []
      | Some content \<Rightarrow>
          map (dependency_violation file_path level)
            (filter (\<lambda>f. re_search (import_pattern f) content) (forbidden_for level)))"

text \<open>The entries of a unit that the last loop of \<^verbatim>\<open>_analyze_component\<close> checks.\<close>

definition is_checked_file :: "string \<Rightarrow> bool" where
  "is_checked_file name =
     (path_suffix name \<in> set COMPONENT_EXTENSIONS \<and> \<not> list_ex (endswith name) TEST_PATTERNS)"

definition file_part :: "string \<Rightarrow> string \<Rightarrow> string \<times> node \<Rightarrow> Violation list" where
  "file_part component_path level file =
     (if is_checked_file (fst file)
      then logic_part (joinpath component_path (fst file)) (snd file)
           @ dependency_part (joinpath component_path (fst file)) (snd file) level
      else [])"

definition has_barrel :: "(string \<times> node) list \<Rightarrow> bool" where
  "has_barrel files = (file_names files \<inter> BARREL_FILES \<noteq> {})"

definition has_test :: "(string \<times> node) list \<Rightarrow> bool" where
  "has_test files = (\<exists>f \<in> file_names files. list_ex (endswith f) TEST_PATTERNS)"

definition barrel_part :: "string \<times> (string \<times> node) list \<Rightarrow> Violation list" where
  "barrel_part component =
     (if has_barrel (snd component) then []
      else [\<lparr>type = ''barrel'', path = fst component,
             message = ''Missing barrel file (index.ts)'', severity = ''warning''\<rparr>])"

definition test_part :: "string \<times> (string \<times> node) list \<Rightarrow> Violation list" where
  "test_part component =
     (if has_test (snd component) then []
      else [\<lparr>type = ''test'', path = fst component, message = ''Missing test file'',
             severity = ''warning''\<rparr>])"

definition unit_part :: "string \<times> (string \<times> node) list \<Rightarrow> string \<Rightarrow> Violation list" where
  "unit_part component level =
     barrel_part component @ test_part component
     @ concat (map (file_part (fst component) level) (snd component))"

definition units :: "project \<Rightarrow> string \<Rightarrow> (string \<times> (string \<times> node) list) list" where
  "units env level =
     find_component_dirs (joinpath (components_path env) level) (level_nodes env level)"

definition all_units :: "project \<Rightarrow> (string \<times> (string \<times> node) list) list" where
  "all_units env = units env ''atoms'' @ units env ''molecules'' @ units env ''organisms''"

definition level_part :: "project \<Rightarrow> string \<Rightarrow> Violation list" where
  "level_part env level = concat (map (\<lambda>u. unit_part u level) (units env level))"

definition structure_part :: "project \<Rightarrow> Violation list" where
  "structure_part env =
     map (\<lambda>dir_name. \<lparr>type = ''structure'', path = joinpath (components_path env) dir_name,
                       message = ''Missing '' @ dir_name @ ''/ directory'',
                       severity = ''warning''\<rparr>)
       (filter (\<lambda>dir_name. level_nodes env dir_name = None)
          [''atoms'', ''molecules'', ''organisms''])"

definition detection_order :: "project \<Rightarrow> Violation list" where
  "detection_order env =
     structure_part env
     @ level_part env ''atoms'' @ level_part env ''molecules'' @ level_part env ''organisms''"

text \<open>The violations that a step appends to the report it starts from.\<close>

definition recorded :: "AnalysisReport \<Rightarrow> AnalysisReport \<Rightarrow> Violation list" where
  "recorded before after = drop (length (violations before)) (violations after)"

text \<open>
  The directories below a tier root that the walk reaches: the root itself when it is a
  listable directory, and every listable directory entered from one that is reached.
\<close>

inductive reaches :: "string \<Rightarrow> node \<Rightarrow> string \<Rightarrow> (string \<times> node) list \<Rightarrow> bool" where
  reaches_root: "reaches base (Dir es) base es"
| reaches_child:
    "(n, e) \<in> set es \<Longrightarrow> reaches (joinpath base n) e p d \<Longrightarrow> reaches base (Dir es) p d"

text \<open>
  A directory qualifies as a component unit: one of its entries that is not a directory
  has a name with a component extension and without a test suffix.
\<close>

definition qualifies :: "(string \<times> node) list \<Rightarrow> bool" where
  "qualifies es =
     (\<exists>(n, e) \<in> set es.
        \<not> is_dir e
        \<and> (\<exists>stem. n = stem @ ''.tsx'' \<or> n = stem @ ''.jsx'')
        \<and> \<not> (\<exists>stem. n = stem @ ''.test.tsx'' \<or> n = stem @ ''.test.jsx''
                       \<or> n = stem @ ''.spec.tsx'' \<or> n = stem @ ''.spec.jsx''))"

text \<open>The rank of a kind in the order barrel, test, logic, dependency.\<close>

definition check_rank :: "string \<Rightarrow> nat" where
  "check_rank kind =
     (if kind = ''barrel'' then 0 else if kind = ''test'' then 1
      else if kind = ''logic'' then 2 else 3)"

definition in_check_order :: "Violation list \<Rightarrow> bool" where
  "in_check_order vs = sorted (map (\<lambda>v. check_rank (type v)) vs)"

section \<open>What the text functions compute\<close>

text \<open>
  The texts that a sequence of pattern items matches, stated without a search order: a
  repetition stands for any run of characters of its class.
\<close>

fun accepts :: "item list \<Rightarrow> string \<Rightarrow> bool" where
  "accepts [] u \<longleftrightarrow> u = []"
| "accepts (One c # p) u \<longleftrightarrow> (\<exists>x v. u = x # v \<and> c x \<and> accepts p v)"
| "accepts (Star c # p) u \<longleftrightarrow> (\<exists>w v. u = w @ v \<and> list_all c w \<and> accepts p v)"
| "accepts (Plus c # p) u \<longleftrightarrow>
     (\<exists>x w v. u = x # w @ v \<and> c x \<and> list_all c w \<and> accepts p v)"

text \<open>
  The number of positions of a text at which a word starts, and the words that cannot
  overlap a copy of themselves (no proper prefix is also a suffix).
\<close>

fun occurrences :: "string \<Rightarrow> string \<Rightarrow> nat" where
  "occurrences [] sub = (if sub = [] then 1 else 0)"
| "occurrences (c # cs) sub = (if startswith (c # cs) sub then 1 else 0) + occurrences cs sub"

definition unbordered :: "string \<Rightarrow> bool" where
  "unbordered sub =
     list_all (\<lambda>k. take k sub \<noteq> drop (length sub - k) sub) [1..<length sub]"

text \<open>The number that a decimal numeral denotes.\<close>

definition nat_of_str :: "string \<Rightarrow> nat" where
  "nat_of_str s = foldl (\<lambda>n c. 10 * n + (of_char c - 48)) 0 s"

section \<open>Example inputs\<close>

definition ex_import :: string where
  "ex_import = ''import { Card } from '' @ [CHR 0x22] @ ''@/components/molecules/Card'' @ [CHR 0x22]"

definition ex_two_imports :: string where
  "ex_two_imports =
     ''from '' @ [CHR 0x22] @ ''../molecules/Card'' @ [CHR 0x22, CHR 0x0A]
     @ ''from '' @ [CHR 0x22] @ ''../molecules/Form'' @ [CHR 0x22, CHR 0x0A]"

definition ex_busy :: string where
  "ex_busy = ''useState useMemo useEffect async function async function async function''"

definition ex_project :: project where
  "ex_project =
     \<lparr>src_path = ''src'', src_exists = True, components_exists = True,
      level_nodes =
        [''atoms'' \<mapsto> Dir [(''Button'', Dir [(''A.tsx'', File (Some ex_import)),
                                              (''B.tsx'', File (Some ex_busy))])],
         ''molecules'' \<mapsto> Dir [], ''organisms'' \<mapsto> Dir []]\<rparr>"

definition ex_clean :: project where
  "ex_clean =
     \<lparr>src_path = ''src'', src_exists = True, components_exists = True,
      level_nodes =
        [''atoms'' \<mapsto> Dir [(''Button'', Dir [(''Button.tsx'', File (Some [])),
                                              (''Button.test.tsx'', File (Some [])),
                                              (''index.ts'', File (Some []))])],
         ''molecules'' \<mapsto> Dir [], ''organisms'' \<mapsto> Dir []]\<rparr>"

definition ex_no_root :: project where
  "ex_no_root =
     \<lparr>src_path = ''src'', src_exists = True, components_exists = False,
      level_nodes = Map.empty\<rparr>"


definition ex_bare :: "(string \<times> node) list" where
  "ex_bare = [(''Button.tsx'', File (Some [])), (''index.ts'', Dir [])]"

definition ex_barrel :: "(string \<times> node) list" where
  "ex_barrel = [(''Button.tsx'', File (Some [])), (''index.js'', File None)]"

definition ex_tree :: node where
  "ex_tree =
     Dir [(''Button'', Dir [(''Button.tsx'', File (Some [])),
                            (''Button.test.tsx'', File (Some []))]),
          (''util'', Dir [(''helpers.test.tsx'', File None),
                          (''deep'', Dir [(''Icon.jsx'', Other)])]),
          (''shared'', Blocked),
          (''README.md'', File (Some []))]"

definition ex_layers :: project where
  "ex_layers =
     \<lparr>src_path = ''src'', src_exists = True, components_exists = True,
      level_nodes =
        [''atoms'' \<mapsto> Dir [(''Button'', Dir [(''Button.tsx'', File (Some ex_import)),
                                              (''index.ts'', File (Some []))])],
         ''molecules'' \<mapsto> Dir [(''Card'', Dir [(''Card.jsx'', File (Some ex_busy)),
                                                (''Card.test.jsx'', File None)])]]\<rparr>"



text \<open>Units whose only entry is a file named by a bare extension.\<close>

definition ex_hidden_import :: project where
  "ex_hidden_import =
     \<lparr>src_path = ''src'', src_exists = True, components_exists = True,
      level_nodes =
        [''atoms'' \<mapsto> Dir [(''Button'', Dir [(''.tsx'', File (Some ex_import))])],
         ''molecules'' \<mapsto> Dir [], ''organisms'' \<mapsto> Dir []]\<rparr>"

definition ex_hidden_busy :: project where
  "ex_hidden_busy =
     \<lparr>src_path = ''src'', src_exists = True, components_exists = True,
      level_nodes =
        [''atoms'' \<mapsto> Dir [(''Form'', Dir [(''.jsx'', File (Some ex_busy))])],
         ''molecules'' \<mapsto> Dir [], ''organisms'' \<mapsto> Dir []]\<rparr>"

section \<open>What each step appends\<close>

lemma forbidden_for_simps:
  "forbidden_for ''atoms'' = [''molecules'', ''organisms'']"
  "forbidden_for ''molecules'' = [''organisms'']"
  "forbidden_for ''organisms'' = []"
  by (simp_all add: forbidden_for_def forbidden_imports_def)

lemma forbidden_for_other:
  "level \<noteq> ''atoms'' \<Longrightarrow> level \<noteq> ''molecules'' \<Longrightarrow> forbidden_for level = []"
  by (simp add: forbidden_for_def forbidden_imports_def)

lemma distinct_forbidden_for: "distinct (forbidden_for level)"
  by (cases "level = ''atoms''"; cases "level = ''molecules''")
     (simp_all add: forbidden_for_simps forbidden_for_other)

lemma capitalize_levels:
  "capitalize ''atoms'' = ''Atoms''"
  "capitalize ''molecules'' = ''Molecules''"
  "capitalize ''organisms'' = ''Organisms''"
  by (simp_all add: upper_def lower_def)

lemma violations_add [simp]: "violations (add r v) = violations r @ [v]"
  by (simp add: add_def)

lemma counters_add [simp]:
  "components_found (add r v) = components_found r"
  "components_with_tests (add r v) = components_with_tests r"
  "components_with_barrels (add r v) = components_with_barrels r"
  by (simp_all add: add_def)

lemma fold_add_filter:
  "fold (\<lambda>x r. if P x then add r (f x) else r) xs report =
     report\<lparr>violations := violations report @ map f (filter P xs)\<rparr>"
  by (induction xs arbitrary: report) (simp_all add: add_def)

lemma check_imports_eq:
  "check_imports report p nd level =
     report\<lparr>violations := violations report @ dependency_part p nd level\<rparr>"
  unfolding check_imports_def forbidden_for_def dependency_violation_def dependency_part_def
  by (cases "read_text nd") (simp_all add: fold_add_filter)

lemma check_component_logic_eq:
  "check_component_logic report p nd level =
     report\<lparr>violations := violations report @ logic_part p nd\<rparr>"
  unfolding check_component_logic_def logic_part_def logic_violation_def
  by (cases "read_text nd") (simp_all add: add_def)

lemma check_file_eq:
  "check_file cp level file report =
     report\<lparr>violations := violations report @ file_part cp level file\<rparr>"
  by (simp add: check_file_def file_part_def is_checked_file_def check_imports_eq
      check_component_logic_eq)

lemma fold_check_file:
  "fold (check_file cp level) files report =
     report\<lparr>violations := violations report @ concat (map (file_part cp level) files)\<rparr>"
  by (induction files arbitrary: report) (simp_all add: check_file_eq)

lemma analyze_component_eq:
  "analyze_component report component level =
     report\<lparr>violations := violations report @ unit_part component level,
            components_found := components_found report + 1,
            components_with_tests :=
              components_with_tests report + (if has_test (snd component) then 1 else 0),
            components_with_barrels :=
              components_with_barrels report + (if has_barrel (snd component) then 1 else 0)\<rparr>"
  by (simp add: analyze_component_def Let_def fold_check_file unit_part_def barrel_part_def
      test_part_def has_barrel_def has_test_def add_def)

lemma fold_analyze_component:
  "fold (\<lambda>component_dir r. analyze_component r component_dir level) us report =
     report\<lparr>violations := violations report @ concat (map (\<lambda>u. unit_part u level) us),
            components_found := components_found report + int (length us),
            components_with_tests :=
              components_with_tests report + int (length (filter (\<lambda>u. has_test (snd u)) us)),
            components_with_barrels :=
              components_with_barrels report
                + int (length (filter (\<lambda>u. has_barrel (snd u)) us))\<rparr>"
  by (induction us arbitrary: report) (simp_all add: analyze_component_eq)

lemma find_component_dirs_None [simp]: "find_component_dirs base None = []"
  by (simp add: find_component_dirs_def)

lemma analyze_level_eq:
  "analyze_level env level report =
     report\<lparr>violations := violations report @ level_part env level,
            components_found := components_found report + int (length (units env level)),
            components_with_tests :=
              components_with_tests report
                + int (length (filter (\<lambda>u. has_test (snd u)) (units env level))),
            components_with_barrels :=
              components_with_barrels report
                + int (length (filter (\<lambda>u. has_barrel (snd u)) (units env level)))\<rparr>"
  by (cases "level_nodes env level")
     (simp_all add: analyze_level_def level_part_def units_def fold_analyze_component)

lemma check_top_level_structure_eq:
  "check_top_level_structure env report =
     report\<lparr>violations := violations report @ structure_part env\<rparr>"
  by (simp add: check_top_level_structure_def structure_part_def fold_add_filter)

lemma analyze_eq:
  assumes "components_exists env"
  shows "analyze env =
     \<lparr>violations = detection_order env,
      components_found = int (length (all_units env)),
      components_with_tests = int (length (filter (\<lambda>u. has_test (snd u)) (all_units env))),
      components_with_barrels =
        int (length (filter (\<lambda>u. has_barrel (snd u)) (all_units env)))\<rparr>"
  using assms
  by (simp add: analyze_def analyze_components_def analyze_level_eq
      check_top_level_structure_eq empty_report_def detection_order_def all_units_def)

lemma recorded_check_imports:
  "recorded report (check_imports report p nd level) = dependency_part p nd level"
  by (simp add: recorded_def check_imports_eq)

lemma recorded_check_component_logic:
  "recorded report (check_component_logic report p nd level) = logic_part p nd"
  by (simp add: recorded_def check_component_logic_eq)

lemma recorded_analyze_component:
  "recorded report (analyze_component report component level) = unit_part component level"
  by (simp add: recorded_def analyze_component_eq)

lemma filter_eq_distinct_le_1: "distinct xs \<Longrightarrow> length (filter (\<lambda>x. x = a) xs) \<le> 1"
  by (induction xs) (auto simp: filter_empty_conv)

lemma type_file_part:
  "v \<in> set (file_part cp level file) \<Longrightarrow> type v = ''logic'' \<or> type v = ''dependency''"
  by (auto simp: file_part_def logic_part_def dependency_part_def logic_violation_def
      dependency_violation_def split: if_splits option.splits)

lemma filter_barrel_files:
  "filter (\<lambda>v. type v = ''barrel'') (concat (map (file_part cp level) files)) = []"
  by (auto simp: filter_empty_conv dest: type_file_part)

lemma startswith_iff: "startswith s p \<longleftrightarrow> (\<exists>rest. s = p @ rest)"
  by (induction s p rule: startswith.induct) auto

lemma endswith_iff: "endswith s suf \<longleftrightarrow> (\<exists>stem. s = stem @ suf)"
proof
  assume "endswith s suf"
  then obtain rest where "rev s = rev suf @ rest"
    by (auto simp: endswith_def startswith_iff)
  then have "s = rev rest @ suf"
    by (metis rev_append rev_rev_ident)
  then show "\<exists>stem. s = stem @ suf" ..
next
  assume "\<exists>stem. s = stem @ suf"
  then show "endswith s suf"
    by (auto simp: endswith_def startswith_iff)
qed

lemma has_component_iff: "has_component (nondirs es) \<longleftrightarrow> qualifies es"
  by (auto simp: has_component_def nondirs_def qualifies_def list_ex_iff endswith_iff
      COMPONENT_EXTENSIONS_def TEST_PATTERNS_def)

lemma os_walk_reaches: "(p, d) \<in> set (os_walk base nd) \<Longrightarrow> reaches base nd p d"
proof (induction base nd rule: os_walk.induct)
  case (1 base es)
  then show ?case
    by (auto intro: reaches.intros)
qed simp_all

lemma reaches_os_walk: "reaches base nd p d \<Longrightarrow> (p, d) \<in> set (os_walk base nd)"
  by (induction rule: reaches.induct) force+

lemma concat_file_part:
  "concat (map (file_part cp level) files) =
     concat (map (\<lambda>file. logic_part (joinpath cp (fst file)) (snd file)
                           @ dependency_part (joinpath cp (fst file)) (snd file) level)
               (filter (\<lambda>file. is_checked_file (fst file)) files))"
  by (induction files) (simp_all add: file_part_def)

section \<open>The matcher and the counts\<close>

lemma match_items_sound:
  "match_items p s = Some r \<Longrightarrow> \<exists>u. s = u @ r \<and> accepts p u"
proof (induction p s arbitrary: r rule: match_items.induct)
  case (1 s)
  then show ?case by simp
next
  case (2 c p)
  then show ?case by simp
next
  case (3 c p x xs)
  then show ?case
    by (fastforce split: if_splits)
next
  case (4 c p)
  then show ?case by simp
next
  case (5 c p x xs)
  then have cx: "c x" and m: "match_items (Star c # p) xs = Some r"
    by (auto split: if_splits)
  from "5.IH" [OF cx m] obtain u where "xs = u @ r" "accepts (Star c # p) u"
    by blast
  then show ?case
    using cx by (auto intro!: exI [of _ "x # u"])
next
  case (6 c p)
  from "6.IH" [OF "6.prems" [simplified]] obtain u where "[] = u @ r" "accepts p u"
    by blast
  then show ?case
    by (auto intro!: exI [of _ "[]"])
next
  case (7 c p x xs)
  show ?case
  proof (cases "c x \<and> match_items (Star c # p) xs \<noteq> None")
    case True
    then have cx: "c x" and m: "match_items (Star c # p) xs = Some r"
      using "7.prems" by auto
    from "7.IH"(1) [OF cx m] obtain w v where "xs = (w @ v) @ r" "list_all c w" "accepts p v"
      by auto
    then have "x # xs = ((x # w) @ v) @ r \<and> list_all c (x # w) \<and> accepts p v"
      using cx by simp
    then show ?thesis
      unfolding accepts.simps by blast
  next
    case False
    then have m: "match_items p (x # xs) = Some r"
      using "7.prems" by (auto split: if_splits option.splits)
    have "\<exists>u. x # xs = u @ r \<and> accepts p u"
    proof (cases "c x")
      case True
      with False have "match_items (Star c # p) xs = None" by simp
      from "7.IH"(2) [OF True this m] show ?thesis .
    next
      case False
      from "7.IH"(3) [OF False m] show ?thesis .
    qed
    then obtain u where "x # xs = u @ r" "accepts p u"
      by blast
    then have "x # xs = ([] @ u) @ r \<and> list_all c [] \<and> accepts p u"
      by simp
    then show ?thesis
      unfolding accepts.simps by blast
  qed
qed

lemma match_star_complete:
  assumes "match_items p t \<noteq> None" and "list_all c w"
  shows "match_items (Star c # p) (w @ t) \<noteq> None"
  using assms(2)
proof (induction w)
  case Nil
  then show ?case
    using assms(1) by (cases t) (auto split: option.splits)
next
  case (Cons x w)
  then show ?case by auto
qed

lemma match_items_complete: "accepts p u \<Longrightarrow> match_items p (u @ v) \<noteq> None"
proof (induction p arbitrary: u)
  case Nil
  then show ?case by simp
next
  case (Cons i p)
  show ?case
  proof (cases i)
    case (One c)
    with Cons show ?thesis by auto
  next
    case (Star c)
    with Cons.prems obtain w t where "u = w @ t" "list_all c w" "accepts p t"
      by auto
    with Cons.IH [of t] show ?thesis
      using Star match_star_complete [of p "t @ v" c w] by simp
  next
    case (Plus c)
    with Cons.prems obtain x w t where "u = x # w @ t" "c x" "list_all c w" "accepts p t"
      by auto
    with Cons.IH [of t] show ?thesis
      using Plus match_star_complete [of p "t @ v" c w] by simp
  qed
qed

lemma match_items_iff:
  "match_items p s \<noteq> None \<longleftrightarrow> (\<exists>u v. s = u @ v \<and> accepts p u)"
  using match_items_sound match_items_complete by fastforce

lemma re_match_iff:
  "re_match p s \<noteq> None \<longleftrightarrow> (\<exists>a \<in> set p. \<exists>u v. s = u @ v \<and> accepts a u)"
proof (induction p)
  case Nil
  then show ?case by simp
next
  case (Cons a p)
  have "re_match (a # p) s \<noteq> None \<longleftrightarrow> match_items a s \<noteq> None \<or> re_match p s \<noteq> None"
    by (simp split: option.splits)
  then show ?case
    unfolding Cons.IH match_items_iff by auto
qed

lemma re_search_iff:
  "re_search p s \<longleftrightarrow> (\<exists>a \<in> set p. \<exists>pre u post. s = pre @ u @ post \<and> accepts a u)"
proof (induction s)
  case Nil
  have "re_search p [] \<longleftrightarrow> re_match p [] \<noteq> None"
    by simp
  then show ?case
    unfolding re_match_iff by auto
next
  case (Cons c cs)
  show ?case
  proof
    assume "re_search p (c # cs)"
    then consider "re_match p (c # cs) \<noteq> None" | "re_search p cs"
      by auto
    then show "\<exists>a \<in> set p. \<exists>pre u post. c # cs = pre @ u @ post \<and> accepts a u"
    proof cases
      case 1
      then obtain a u v where "a \<in> set p" "c # cs = u @ v" "accepts a u"
        unfolding re_match_iff by blast
      then have "a \<in> set p \<and> c # cs = [] @ u @ v \<and> accepts a u"
        by simp
      then show ?thesis by blast
    next
      case 2
      with Cons obtain a pre u post where "a \<in> set p" "cs = pre @ u @ post" "accepts a u"
        by blast
      then have "c # cs = (c # pre) @ u @ post"
        by simp
      with \<open>a \<in> set p\<close> \<open>accepts a u\<close> show ?thesis by blast
    qed
  next
    assume "\<exists>a \<in> set p. \<exists>pre u post. c # cs = pre @ u @ post \<and> accepts a u"
    then obtain a pre u post where a: "a \<in> set p" "c # cs = pre @ u @ post" "accepts a u"
      by blast
    show "re_search p (c # cs)"
    proof (cases pre)
      case Nil
      with a have "a \<in> set p \<and> c # cs = u @ post \<and> accepts a u"
        by simp
      then have "re_match p (c # cs) \<noteq> None"
        unfolding re_match_iff by blast
      then show ?thesis by simp
    next
      case (Cons d pre')
      with a have "cs = pre' @ u @ post" by simp
      with a Cons.IH have "re_search p cs" by blast
      then show ?thesis by simp
    qed
  qed
qed

lemma accepts_lit: "accepts (lit s @ p) u \<longleftrightarrow> (\<exists>v. u = s @ v \<and> accepts p v)"
  by (induction s arbitrary: u) (auto simp: lit_def)

lemma accepts_lit_only: "accepts (lit s) u \<longleftrightarrow> u = s"
  using accepts_lit [of s "[]" u] by simp

lemma accepts_OneI: "c x \<Longrightarrow> accepts p v \<Longrightarrow> accepts (One c # p) (x # v)"
  by simp

lemma accepts_StarI: "list_all c w \<Longrightarrow> accepts p v \<Longrightarrow> accepts (Star c # p) (w @ v)"
  unfolding accepts.simps by blast

lemma accepts_PlusI:
  "w \<noteq> [] \<Longrightarrow> list_all c w \<Longrightarrow> accepts p v \<Longrightarrow> accepts (Plus c # p) (w @ v)"
  by (cases w) auto

lemma accepts_litI: "accepts p v \<Longrightarrow> accepts (lit s @ p) (s @ v)"
  by (simp add: accepts_lit)

lemma accepts_import_relative:
  "accepts (lit ''from'' @ [Plus is_space, One is_quote, Star is_dot]
            @ lit ''/'' @ lit f @ lit ''/'') u \<longleftrightarrow>
     (\<exists>ws q mid. u = ''from'' @ ws @ q # mid @ ''/'' @ f @ ''/''
        \<and> ws \<noteq> [] \<and> list_all is_space ws \<and> is_quote q \<and> list_all is_dot mid)"
  (is "?l \<longleftrightarrow> ?r")
proof
  assume ?l
  then obtain x w q mid where
    "u = ''from'' @ (x # w) @ q # mid @ ''/'' @ f @ ''/''" "is_space x" "list_all is_space w"
    "is_quote q" "list_all is_dot mid"
    by (auto simp: accepts_lit accepts_lit_only)
  then have "u = ''from'' @ (x # w) @ q # mid @ ''/'' @ f @ ''/'' \<and> x # w \<noteq> []
      \<and> list_all is_space (x # w) \<and> is_quote q \<and> list_all is_dot mid"
    by simp
  then show ?r by blast
next
  assume ?r
  then obtain ws q mid where r: "u = ''from'' @ ws @ q # mid @ ''/'' @ f @ ''/''"
    "ws \<noteq> []" "list_all is_space ws" "is_quote q" "list_all is_dot mid"
    by blast
  have "accepts (lit ''/'' @ lit f @ lit ''/'') (''/'' @ f @ ''/'')"
    by (simp add: accepts_lit accepts_lit_only)
  then have "accepts (Star is_dot # lit ''/'' @ lit f @ lit ''/'') (mid @ ''/'' @ f @ ''/'')"
    using r by (intro accepts_StarI)
  then have "accepts (One is_quote # Star is_dot # lit ''/'' @ lit f @ lit ''/'')
      (q # mid @ ''/'' @ f @ ''/'')"
    using r by (intro accepts_OneI)
  then have "accepts (Plus is_space # One is_quote # Star is_dot # lit ''/'' @ lit f @ lit ''/'')
      (ws @ q # mid @ ''/'' @ f @ ''/'')"
    using r by (intro accepts_PlusI)
  then have "accepts (lit ''from''
      @ Plus is_space # One is_quote # Star is_dot # lit ''/'' @ lit f @ lit ''/'')
      (''from'' @ ws @ q # mid @ ''/'' @ f @ ''/'')"
    by (rule accepts_litI)
  with r show ?l
    by simp
qed

lemma accepts_import_alias:
  "accepts (lit ''from'' @ [Plus is_space, One is_quote]
            @ lit ''@/components/'' @ lit f @ lit ''/'') u \<longleftrightarrow>
     (\<exists>ws q. u = ''from'' @ ws @ q # ''@/components/'' @ f @ ''/''
        \<and> ws \<noteq> [] \<and> list_all is_space ws \<and> is_quote q)"
  (is "?l \<longleftrightarrow> ?r")
proof
  assume ?l
  then obtain x w q where
    "u = ''from'' @ (x # w) @ q # ''@/components/'' @ f @ ''/''" "is_space x"
    "list_all is_space w" "is_quote q"
    by (auto simp: accepts_lit accepts_lit_only)
  then have "u = ''from'' @ (x # w) @ q # ''@/components/'' @ f @ ''/'' \<and> x # w \<noteq> []
      \<and> list_all is_space (x # w) \<and> is_quote q"
    by simp
  then show ?r by blast
next
  assume ?r
  then obtain ws q where r: "u = ''from'' @ ws @ q # ''@/components/'' @ f @ ''/''"
    "ws \<noteq> []" "list_all is_space ws" "is_quote q"
    by blast
  have "accepts (lit ''@/components/'' @ lit f @ lit ''/'') (''@/components/'' @ f @ ''/'')"
    by (simp add: accepts_lit accepts_lit_only)
  then have "accepts (One is_quote # lit ''@/components/'' @ lit f @ lit ''/'')
      (q # ''@/components/'' @ f @ ''/'')"
    using r by (intro accepts_OneI)
  then have "accepts (Plus is_space # One is_quote # lit ''@/components/'' @ lit f @ lit ''/'')
      (ws @ q # ''@/components/'' @ f @ ''/'')"
    using r by (intro accepts_PlusI)
  then have "accepts (lit ''from''
      @ Plus is_space # One is_quote # lit ''@/components/'' @ lit f @ lit ''/'')
      (''from'' @ ws @ q # ''@/components/'' @ f @ ''/'')"
    by (rule accepts_litI)
  with r show ?l
    by simp
qed

lemma import_alias_is_relative:
  assumes "accepts (lit ''from'' @ [Plus is_space, One is_quote]
            @ lit ''@/components/'' @ lit f @ lit ''/'') u"
  shows "accepts (lit ''from'' @ [Plus is_space, One is_quote, Star is_dot]
            @ lit ''/'' @ lit f @ lit ''/'') u"
proof -
  from assms obtain ws q where r: "u = ''from'' @ ws @ q # ''@/components/'' @ f @ ''/''"
    "ws \<noteq> []" "list_all is_space ws" "is_quote q"
    unfolding accepts_import_alias by blast
  have "list_all is_dot ''@/components''"
    by (simp add: is_dot_def)
  moreover from r have "u = ''from'' @ ws @ q # ''@/components'' @ ''/'' @ f @ ''/''"
    by simp
  ultimately show ?thesis
    unfolding accepts_import_relative using r by blast
qed

lemma re_search_import_pattern:
  "re_search (import_pattern f) content \<longleftrightarrow>
     (\<exists>pre ws q mid post.
        content = pre @ ''from'' @ ws @ q # mid @ ''/'' @ f @ ''/'' @ post
        \<and> ws \<noteq> [] \<and> list_all is_space ws \<and> is_quote q \<and> list_all is_dot mid)"
  (is "?l \<longleftrightarrow> ?r")
proof
  assume ?l
  then obtain pre u post where c: "content = pre @ u @ post"
    and "accepts (lit ''from'' @ [Plus is_space, One is_quote, Star is_dot]
            @ lit ''/'' @ lit f @ lit ''/'') u"
    unfolding re_search_iff import_pattern_def using import_alias_is_relative by auto
  then obtain ws q mid where "u = ''from'' @ ws @ q # mid @ ''/'' @ f @ ''/''"
    "ws \<noteq> []" "list_all is_space ws" "is_quote q" "list_all is_dot mid"
    unfolding accepts_import_relative by blast
  with c have "content = pre @ ''from'' @ ws @ q # mid @ ''/'' @ f @ ''/'' @ post
      \<and> ws \<noteq> [] \<and> list_all is_space ws \<and> is_quote q \<and> list_all is_dot mid"
    by simp
  then show ?r by blast
next
  assume ?r
  then obtain pre ws q mid post where
    c: "content = pre @ ''from'' @ ws @ q # mid @ ''/'' @ f @ ''/'' @ post"
    and w: "ws \<noteq> []" "list_all is_space ws" "is_quote q" "list_all is_dot mid"
    by blast
  let ?u = "''from'' @ ws @ q # mid @ ''/'' @ f @ ''/''"
  from w have "accepts (lit ''from'' @ [Plus is_space, One is_quote, Star is_dot]
            @ lit ''/'' @ lit f @ lit ''/'') ?u"
    unfolding accepts_import_relative by blast
  moreover from c have "content = pre @ ?u @ post"
    by simp
  ultimately show ?l
    unfolding re_search_iff import_pattern_def by (metis list.set_intros(1))
qed

lemma digit_value: "d < 10 \<Longrightarrow> of_char (''0123456789'' ! d) - 48 = (d :: nat)"
proof -
  assume "d < 10"
  then have "d = 0 \<or> d = 1 \<or> d = 2 \<or> d = 3 \<or> d = 4 \<or> d = 5 \<or> d = 6 \<or> d = 7
      \<or> d = 8 \<or> d = 9"
    by presburger
  then show ?thesis
    by (elim disjE) simp_all
qed

lemma nat_of_str_snoc: "nat_of_str (s @ [c]) = 10 * nat_of_str s + (of_char c - 48)"
  by (simp add: nat_of_str_def)

lemma nat_of_str_str_nat: "nat_of_str (str_nat n) = n"
proof (induction n rule: str_nat.induct)
  case (1 n)
  show ?case
  proof (cases "n < 10")
    case True
    then show ?thesis
      using digit_value [of n] by (subst str_nat.simps) (simp add: nat_of_str_def)
  next
    case False
    then have "nat_of_str (str_nat n) =
        10 * nat_of_str (str_nat (n div 10)) + (of_char (''0123456789'' ! (n mod 10)) - 48)"
      by (subst str_nat.simps) (simp add: nat_of_str_snoc)
    also have "\<dots> = 10 * (n div 10) + n mod 10"
      using "1.IH" [OF False] digit_value [of "n mod 10"] by simp
    finally show ?thesis by simp
  qed
qed

lemma no_overlap:
  assumes "unbordered sub" "startswith s sub" "0 < k" "k < length sub"
  shows "\<not> startswith (drop k s) sub"
proof
  assume "startswith (drop k s) sub"
  then obtain r2 where r2: "drop k s = sub @ r2"
    by (auto simp: startswith_iff)
  from assms(2) obtain r1 where r1: "s = sub @ r1"
    by (auto simp: startswith_iff)
  from r1 r2 assms(4) have "drop k sub @ r1 = sub @ r2"
    by simp
  then have "take (length sub - k) (drop k sub @ r1) = take (length sub - k) (sub @ r2)"
    by simp
  then have "drop k sub = take (length sub - k) sub"
    using assms(4) by simp
  moreover have "length sub - k \<in> set [1..<length sub]"
    using assms(3,4) by auto
  then have "take (length sub - k) sub \<noteq> drop (length sub - (length sub - k)) sub"
    using assms(1) unfolding unbordered_def list_all_iff by blast
  moreover have "length sub - (length sub - k) = k"
    using assms(4) by simp
  ultimately show False
    by simp
qed

lemma occurrences_skip:
  "m \<le> length s \<Longrightarrow> (\<forall>k < m. \<not> startswith (drop k s) sub) \<Longrightarrow>
     occurrences s sub = occurrences (drop m s) sub"
proof (induction m arbitrary: s)
  case 0
  then show ?case by simp
next
  case (Suc m)
  then obtain c cs where s: "s = c # cs"
    by (cases s) auto
  from Suc.prems(2) have "\<not> startswith (drop 0 s) sub"
    by blast
  then have 1: "occurrences s sub = occurrences cs sub"
    using s by simp
  have "\<forall>k < m. \<not> startswith (drop k cs) sub"
    using Suc.prems(2) s by (metis Suc_less_eq drop_Suc_Cons)
  with Suc.IH [of cs] Suc.prems(1) s have "occurrences cs sub = occurrences (drop m cs) sub"
    by simp
  with 1 s show ?case by simp
qed

lemma str_count_occurrences:
  "unbordered sub \<Longrightarrow> sub \<noteq> [] \<Longrightarrow> str_count s sub = occurrences s sub"
proof (induction s sub rule: str_count.induct)
  case (1 sub)
  then show ?case by simp
next
  case (2 c cs sub)
  show ?case
  proof (cases "startswith (c # cs) sub")
    case False
    with 2 show ?thesis by simp
  next
    case True
    then obtain rest where rest: "c # cs = sub @ rest"
      by (auto simp: startswith_iff)
    then have len: "length sub \<le> Suc (length cs)"
      by (metis length_Cons length_append le_add1)
    from "2.prems" obtain n where n: "length sub = Suc n"
      by (cases sub) auto
    have "\<forall>k < n. \<not> startswith (drop k cs) sub"
    proof (intro allI impI)
      fix k
      assume "k < n"
      then have "\<not> startswith (drop (Suc k) (c # cs)) sub"
        using no_overlap [OF "2.prems"(1) True, of "Suc k"] n by simp
      then show "\<not> startswith (drop k cs) sub" by simp
    qed
    moreover have "n \<le> length cs"
      using len n by simp
    ultimately have "occurrences cs sub = occurrences (drop n cs) sub"
      by (rule occurrences_skip [rotated])
    moreover have "str_count (drop (length sub) (c # cs)) sub =
        occurrences (drop (length sub) (c # cs)) sub"
      using "2.IH"(2) "2.prems" True by simp
    ultimately show ?thesis
      using True "2.prems" n by simp
  qed
qed

lemma unbordered_hooks: "list_all unbordered STATE_HOOKS"
  by (simp add: STATE_HOOKS_def unbordered_def upt_rec numeral_eq_Suc)

lemma rfind_last_dot:
  "c \<notin> set e \<Longrightarrow> rfind (stem @ c # e) c = int (length stem)"
proof -
  assume c: "c \<notin> set e"
  then have "takeWhile (\<lambda>x. x \<noteq> c) (rev e) = rev e"
    by (auto simp: takeWhile_eq_all_conv)
  then have "takeWhile (\<lambda>x. x \<noteq> c) (rev (stem @ c # e)) = rev e"
    by (simp add: takeWhile_tail)
  then show ?thesis
    by (simp add: rfind_def)
qed

lemma path_suffix_iff:
  assumes "CHR ''.'' \<notin> set e" "e \<noteq> []"
  shows "path_suffix name = CHR ''.'' # e \<longleftrightarrow> (\<exists>stem. stem \<noteq> [] \<and> name = stem @ CHR ''.'' # e)"
proof
  assume l: "path_suffix name = CHR ''.'' # e"
  let ?i = "rfind name CHR ''.''"
  from l have i: "0 < ?i" "drop (nat ?i) name = CHR ''.'' # e"
    by (auto simp: path_suffix_def Let_def split: if_splits)
  then have "name = take (nat ?i) name @ CHR ''.'' # e"
    by (metis append_take_drop_id)
  moreover have "take (nat ?i) name \<noteq> []"
    using i by (auto simp: take_eq_Nil)
  ultimately show "\<exists>stem. stem \<noteq> [] \<and> name = stem @ CHR ''.'' # e"
    by blast
next
  assume "\<exists>stem. stem \<noteq> [] \<and> name = stem @ CHR ''.'' # e"
  then obtain stem where s: "stem \<noteq> []" "name = stem @ CHR ''.'' # e"
    by blast
  then have "rfind name CHR ''.'' = int (length stem)"
    using assms(1) by (simp add: rfind_last_dot)
  then show "path_suffix name = CHR ''.'' # e"
    using s assms(2) by (simp add: path_suffix_def Let_def)
qed

lemma is_checked_file_iff:
  "is_checked_file name \<longleftrightarrow>
     (\<exists>stem. stem \<noteq> [] \<and> (name = stem @ ''.tsx'' \<or> name = stem @ ''.jsx''))
     \<and> \<not> list_ex (endswith name) TEST_PATTERNS"
proof -
  have t: "path_suffix name = ''.tsx'' \<longleftrightarrow> (\<exists>stem. stem \<noteq> [] \<and> name = stem @ ''.tsx'')"
    using path_suffix_iff [of "''tsx''" name] by simp
  have j: "path_suffix name = ''.jsx'' \<longleftrightarrow> (\<exists>stem. stem \<noteq> [] \<and> name = stem @ ''.jsx'')"
    using path_suffix_iff [of "''jsx''" name] by simp
  show ?thesis
    unfolding is_checked_file_def COMPONENT_EXTENSIONS_def using t j by auto
qed

lemma re_match_sound:
  "re_match p s = Some r \<Longrightarrow> \<exists>a \<in> set p. \<exists>u. s = u @ r \<and> accepts a u"
proof (induction p)
  case Nil
  then show ?case by simp
next
  case (Cons a p)
  show ?case
  proof (cases "match_items a s")
    case None
    with Cons show ?thesis by auto
  next
    case (Some r')
    with Cons.prems have "match_items a s = Some r"
      by simp
    from match_items_sound [OF this] show ?thesis
      by auto
  qed
qed

lemma re_findall_sound:
  "m \<in> set (re_findall p s) \<Longrightarrow>
     (\<exists>a \<in> set p. accepts a m) \<and> (\<exists>pre post. s = pre @ m @ post)"
proof (induction p s rule: re_findall.induct)
  case (1 p s)
  show ?case
  proof (cases "re_match p s")
    case None
    show ?thesis
    proof (cases s)
      case Nil
      with None "1.prems" show ?thesis
        by (simp add: re_findall.simps [of p "[]"])
    next
      case (Cons c cs)
      with None "1.prems" have "m \<in> set (re_findall p cs)"
        by (simp add: re_findall.simps [of p "c # cs"])
      from "1.IH"(1) [OF None Cons this] obtain a pre post
        where "a \<in> set p" "accepts a m" "cs = pre @ m @ post"
        by blast
      then have "a \<in> set p \<and> accepts a m \<and> s = (c # pre) @ m @ post"
        using Cons by simp
      then show ?thesis by blast
    qed
  next
    case (Some r)
    from re_match_sound [OF Some] obtain a u where a: "a \<in> set p" "s = u @ r" "accepts a u"
      by blast
    have first: "(\<exists>a \<in> set p. accepts a u) \<and> (\<exists>pre post. s = pre @ u @ post)"
      using a by (metis append_Nil)
    show ?thesis
    proof (cases "length r < length s")
      case True
      with Some "1.prems" consider "m = take (length s - length r) s"
        | "m \<in> set (re_findall p r)"
        by (auto simp: re_findall.simps [of p s])
      then show ?thesis
      proof cases
        case 1
        with a have "m = u" by simp
        with first show ?thesis by simp
      next
        case 2
        from "1.IH"(2) [OF Some True this] obtain b pre post
          where "b \<in> set p" "accepts b m" "r = pre @ m @ post"
          by blast
        then have "b \<in> set p \<and> accepts b m \<and> s = (u @ pre) @ m @ post"
          using a by simp
        then show ?thesis by blast
      qed
    next
      case False
      with a have u: "u = []" by simp
      show ?thesis
      proof (cases s)
        case Nil
        with Some False "1.prems" have "m = []"
          by (simp add: re_findall.simps [of p "[]"])
        with first u show ?thesis by simp
      next
        case (Cons c cs)
        with Some False "1.prems" consider "m = []" | "m \<in> set (re_findall p cs)"
          by (auto simp: re_findall.simps [of p "c # cs"])
        then show ?thesis
        proof cases
          case 1
          with first u show ?thesis by simp
        next
          case 2
          from "1.IH"(3) [OF Some False Cons this] obtain b pre post
            where "b \<in> set p" "accepts b m" "cs = pre @ m @ post"
            by blast
          then have "b \<in> set p \<and> accepts b m \<and> s = (c # pre) @ m @ post"
            using Cons by simp
          then show ?thesis by blast
        qed
      qed
    qed
  qed
qed

lemma hook_count_occurrences:
  "hook_count content =
     occurrences content ''useState'' + occurrences content ''useReducer''
     + occurrences content ''useEffect'' + occurrences content ''useMemo''
     + occurrences content ''useCallback''"
  using unbordered_hooks
  by (simp add: hook_count_def STATE_HOOKS_def str_count_occurrences)

lemma function_matches_sound:
  assumes "m \<in> set (function_matches content)"
  shows "(\<exists>pattern \<in> set LOGIC_PATTERNS. \<exists>a \<in> set pattern. accepts a m)
         \<and> (\<exists>pre post. content = pre @ m @ post)"
proof -
  from assms obtain pattern where "pattern \<in> set LOGIC_PATTERNS"
    "m \<in> set (re_findall pattern content)"
    by (auto simp: function_matches_def)
  with re_findall_sound [of m pattern content] show ?thesis
    by blast
qed

section \<open>The two checks on a file\<close>

text \<open>
  The dependency check on a readable file that it is run on: for each tier that is
  forbidden for it (molecules and organisms for atoms, organisms for molecules, none for
  organisms), a match of the import pattern of that tier appends one violation of kind
  dependency and severity error, whose message names the capitalized tier and the
  forbidden one; without a match nothing is appended for that tier. The pattern of a tier
  \<open>f\<close> matches exactly the texts that hold \<^verbatim>\<open>from\<close>, white space, a quote, any characters of
  one line and then \<^verbatim>\<open>/f/\<close>; the alternative with \<^verbatim>\<open>@/components/f/\<close> is one case of this.
\<close>
lemma check_imports_forbidden_tiers:
  "violations (check_imports report file_path (File (Some content)) ''atoms'') =
     violations report
     @ (if re_search (import_pattern ''molecules'') content
        then [\<lparr>type = ''dependency'', path = file_path,
               message = ''Atoms should not import from molecules'', severity = ''error''\<rparr>]
        else [])
     @ (if re_search (import_pattern ''organisms'') content
        then [\<lparr>type = ''dependency'', path = file_path,
               message = ''Atoms should not import from organisms'', severity = ''error''\<rparr>]
        else [])
   \<and> violations (check_imports report file_path (File (Some content)) ''molecules'') =
     violations report
     @ (if re_search (import_pattern ''organisms'') content
        then [\<lparr>type = ''dependency'', path = file_path,
               message = ''Molecules should not import from organisms'',
               severity = ''error''\<rparr>]
        else [])
   \<and> check_imports report file_path (File (Some content)) ''organisms'' = report
   \<and> (re_search (import_pattern forbidden) content \<longleftrightarrow>
        (\<exists>pre ws q mid post.
           content = pre @ ''from'' @ ws @ q # mid @ ''/'' @ forbidden @ ''/'' @ post
           \<and> ws \<noteq> [] \<and> list_all is_space ws \<and> is_quote q \<and> list_all is_dot mid))"
proof -
  have "violations (check_imports report file_path (File (Some content)) ''atoms'') =
     violations report
     @ (if re_search (import_pattern ''molecules'') content
        then [\<lparr>type = ''dependency'', path = file_path,
               message = ''Atoms should not import from molecules'', severity = ''error''\<rparr>]
        else [])
     @ (if re_search (import_pattern ''organisms'') content
        then [\<lparr>type = ''dependency'', path = file_path,
               message = ''Atoms should not import from organisms'', severity = ''error''\<rparr>]
        else [])"
    by (simp add: check_imports_eq dependency_part_def forbidden_for_simps
        dependency_violation_def capitalize_levels del: capitalize.simps)
  moreover have
    "violations (check_imports report file_path (File (Some content)) ''molecules'') =
     violations report
     @ (if re_search (import_pattern ''organisms'') content
        then [\<lparr>type = ''dependency'', path = file_path,
               message = ''Molecules should not import from organisms'',
               severity = ''error''\<rparr>]
        else [])"
    by (simp add: check_imports_eq dependency_part_def forbidden_for_simps
        dependency_violation_def capitalize_levels del: capitalize.simps)
  moreover have "check_imports report file_path (File (Some content)) ''organisms'' = report"
    by (simp add: check_imports_eq dependency_part_def forbidden_for_simps)
  ultimately show ?thesis
    using re_search_import_pattern [of forbidden content] by blast
qed

lemma check_imports_forbidden_tiers_example:
  "re_search (import_pattern ''molecules'') ex_import
   \<and> \<not> re_search (import_pattern ''organisms'') ex_import
   \<and> violations (check_imports empty_report ''Button.tsx'' (File (Some ex_import)) ''atoms'') =
       [\<lparr>type = ''dependency'', path = ''Button.tsx'',
         message = ''Atoms should not import from molecules'', severity = ''error''\<rparr>]
   \<and> violations (check_imports empty_report ''Button.tsx'' (File (Some [])) ''atoms'') = []"
proof -
  have m: "re_search (import_pattern ''molecules'') ex_import"
    by code_simp
  have o: "\<not> re_search (import_pattern ''organisms'') ex_import"
    by code_simp
  have e: "\<not> re_search (import_pattern ''molecules'') []"
    "\<not> re_search (import_pattern ''organisms'') []"
    by code_simp+
  show ?thesis
    using check_imports_forbidden_tiers [of empty_report "''Button.tsx''" ex_import]
      check_imports_forbidden_tiers [of empty_report "''Button.tsx''" "[]"] m o e
    by (simp add: empty_report_def)
qed

text \<open>
  The logic check on a readable file that it is run on appends one warning of kind logic exactly
  when the five hook names occur more than twice in all and the three function patterns
  match more than twice in all; the message carries the two counts, and what the check
  appends does not depend on the report it starts from, so a second run on the same
  content gives the same counts. The hook count is the number of positions at which one
  of the five names starts, every counted function match is a piece of the content that
  one of the three patterns matches, and each count can be read back from its numeral in
  the message.
\<close>
lemma check_component_logic_threshold:
  "violations (check_component_logic report file_path (File (Some content)) level) =
     violations report
     @ (if 2 < hook_count content \<and> 2 < length (function_matches content)
        then [\<lparr>type = ''logic'', path = file_path,
               message = ''Component has '' @ str_nat (hook_count content) @ '' hooks and ''
                 @ str_nat (length (function_matches content))
                 @ '' functions. Consider extracting logic to a custom hook.'',
               severity = ''warning''\<rparr>]
        else [])
   \<and> components_found (check_component_logic report file_path (File (Some content)) level) =
       components_found report
   \<and> components_with_tests
         (check_component_logic report file_path (File (Some content)) level) =
       components_with_tests report
   \<and> components_with_barrels
         (check_component_logic report file_path (File (Some content)) level) =
       components_with_barrels report
   \<and> hook_count content =
       str_count content ''useState'' + str_count content ''useReducer''
       + str_count content ''useEffect'' + str_count content ''useMemo''
       + str_count content ''useCallback''
   \<and> length LOGIC_PATTERNS = 3
   \<and> length (function_matches content) =
       length (re_findall (LOGIC_PATTERNS ! 0) content)
       + length (re_findall (LOGIC_PATTERNS ! 1) content)
       + length (re_findall (LOGIC_PATTERNS ! 2) content)
   \<and> recorded other (check_component_logic other file_path (File (Some content)) level) =
       recorded report (check_component_logic report file_path (File (Some content)) level)
   \<and> hook_count content =
       occurrences content ''useState'' + occurrences content ''useReducer''
       + occurrences content ''useEffect'' + occurrences content ''useMemo''
       + occurrences content ''useCallback''
   \<and> (m \<in> set (function_matches content) \<longrightarrow>
        (\<exists>pattern \<in> set LOGIC_PATTERNS. \<exists>a \<in> set pattern. accepts a m)
        \<and> (\<exists>pre post. content = pre @ m @ post))
   \<and> nat_of_str (str_nat (hook_count content)) = hook_count content
   \<and> nat_of_str (str_nat (length (function_matches content))) =
       length (function_matches content)"
proof -
  have "violations (check_component_logic report file_path (File (Some content)) level) =
     violations report
     @ (if 2 < hook_count content \<and> 2 < length (function_matches content)
        then [\<lparr>type = ''logic'', path = file_path,
               message = ''Component has '' @ str_nat (hook_count content) @ '' hooks and ''
                 @ str_nat (length (function_matches content))
                 @ '' functions. Consider extracting logic to a custom hook.'',
               severity = ''warning''\<rparr>]
        else [])"
    by (simp add: check_component_logic_eq logic_part_def logic_violation_def)
  moreover have
    "components_found (check_component_logic report file_path (File (Some content)) level) =
       components_found report
     \<and> components_with_tests
         (check_component_logic report file_path (File (Some content)) level) =
       components_with_tests report
     \<and> components_with_barrels
         (check_component_logic report file_path (File (Some content)) level) =
       components_with_barrels report"
    by (simp add: check_component_logic_eq)
  moreover have "hook_count content =
       str_count content ''useState'' + str_count content ''useReducer''
       + str_count content ''useEffect'' + str_count content ''useMemo''
       + str_count content ''useCallback''"
    by (simp add: hook_count_def STATE_HOOKS_def)
  moreover have "length LOGIC_PATTERNS = 3"
    by (simp add: LOGIC_PATTERNS_def)
  moreover have "length (function_matches content) =
       length (re_findall (LOGIC_PATTERNS ! 0) content)
       + length (re_findall (LOGIC_PATTERNS ! 1) content)
       + length (re_findall (LOGIC_PATTERNS ! 2) content)"
    by (simp add: function_matches_def LOGIC_PATTERNS_def)
  moreover have
    "recorded other (check_component_logic other file_path (File (Some content)) level) =
       recorded report (check_component_logic report file_path (File (Some content)) level)"
    by (simp only: recorded_check_component_logic)
  ultimately show ?thesis
    using hook_count_occurrences [of content] function_matches_sound [of m content]
      nat_of_str_str_nat
    by blast
qed

lemma check_component_logic_threshold_example:
  "hook_count ex_busy = 3 \<and> length (function_matches ex_busy) = 3
   \<and> violations (check_component_logic empty_report ''B.tsx'' (File (Some ex_busy)) ''atoms'') =
       [\<lparr>type = ''logic'', path = ''B.tsx'',
         message =
           ''Component has 3 hooks and 3 functions. Consider extracting logic to a custom hook.'',
         severity = ''warning''\<rparr>]
   \<and> violations
         (check_component_logic empty_report ''B.tsx'' (File (Some ''useState'')) ''atoms'') = []"
proof -
  have h: "hook_count ex_busy = 3" "length (function_matches ex_busy) = 3"
    by code_simp+
  have s: "str_nat 3 = ''3''"
    by code_simp
  have n: "hook_count ''useState'' = 1"
    by code_simp
  show ?thesis
    using check_component_logic_threshold [of empty_report "''B.tsx''" ex_busy "''atoms''"]
      check_component_logic_threshold [of empty_report "''B.tsx''" "''useState''" "''atoms''"]
      h s n
    by (simp add: empty_report_def)
qed

text \<open>
  Which entries the loop of a unit hands to the two checks: those whose name has a
  component extension after a stem that is not empty, and no test suffix. For such an entry
  the unit records what the two checks append, the logic violation first.
\<close>

lemma checked_file_recorded:
  "is_checked_file name \<Longrightarrow>
     recorded report (check_file component_path level (name, nd) report) =
       logic_part (joinpath component_path name) nd
       @ dependency_part (joinpath component_path name) nd level"
  by (simp add: recorded_def check_file_eq file_part_def)

lemma unchecked_file_recorded:
  "\<not> is_checked_file name \<Longrightarrow>
     check_file component_path level (name, nd) report = report"
  by (simp add: check_file_def is_checked_file_def)

lemma bare_extension_not_checked:
  "\<not> is_checked_file ''.tsx''" "\<not> is_checked_file ''.jsx''"
  by (simp_all add: is_checked_file_iff)



section \<open>The claims\<close>

text \<open>
  Claim C1 holds for the files that the loop of a unit hands to the dependency check, but
  not for every component file: the locator takes \<^verbatim>\<open>.tsx\<close> for a component file (its name
  ends with the extension and with no test suffix), so the directory is a unit, while the
  loop asks \<^verbatim>\<open>Path.suffix\<close>, which is empty for that name. The file imports from molecules
  and the report of the atoms unit holds no dependency violation.
\<close>

theorem hidden_name_import_unchecked:
  "units ex_hidden_import ''atoms'' =
     [(''src/components/atoms/Button'', [(''.tsx'', File (Some ex_import))])]
   \<and> has_component [''.tsx'']
   \<and> path_suffix ''.tsx'' = []
   \<and> re_search (import_pattern ''molecules'') ex_import
   \<and> analyze ex_hidden_import =
       \<lparr>violations =
          [\<lparr>type = ''barrel'', path = ''src/components/atoms/Button'',
            message = ''Missing barrel file (index.ts)'', severity = ''warning''\<rparr>,
           \<lparr>type = ''test'', path = ''src/components/atoms/Button'',
            message = ''Missing test file'', severity = ''warning''\<rparr>],
        components_found = 1, components_with_tests = 0, components_with_barrels = 0\<rparr>"
  by code_simp

theorem hidden_name_import_unchecked_witness:
  "filter (\<lambda>v. type v = ''dependency'') (violations (analyze ex_hidden_import)) = []"
  using hidden_name_import_unchecked by simp

text \<open>
  Claim C2. When the components directory does not exist, the report holds one violation,
  of kind structure and severity error, every counter is zero, and the tier directories
  are not looked at: the result is the same whatever they hold.
\<close>
theorem analyze_missing_root:
  "\<not> components_exists env \<Longrightarrow>
     analyze env =
       \<lparr>violations = [\<lparr>type = ''structure'', path = components_path env,
                        message = ''components/ directory not found'',
                        severity = ''error''\<rparr>],
        components_found = 0, components_with_tests = 0, components_with_barrels = 0\<rparr>
     \<and> analyze (env\<lparr>level_nodes := other\<rparr>) = analyze env"
  by (simp add: analyze_def add_def empty_report_def components_path_def)

theorem analyze_missing_root_witness:
  "\<not> components_exists ex_no_root
   \<and> analyze ex_no_root =
       \<lparr>violations = [\<lparr>type = ''structure'', path = ''src/components'',
                        message = ''components/ directory not found'',
                        severity = ''error''\<rparr>],
        components_found = 0, components_with_tests = 0, components_with_barrels = 0\<rparr>
   \<and> analyze (ex_no_root\<lparr>level_nodes := level_nodes ex_project\<rparr>) = analyze ex_no_root"
proof -
  have h: "\<not> components_exists ex_no_root"
    by (simp add: ex_no_root_def)
  have p: "components_path ex_no_root = ''src/components''"
    by (simp add: components_path_def joinpath_def ex_no_root_def)
  show ?thesis
    using analyze_missing_root [OF h, of "level_nodes ex_project"] h p by simp
qed

text \<open>
  Claim C8. A file whose content cannot be read is skipped by the logic check and by the
  dependency check: the report comes back unchanged, violations and counters alike, and
  the loop over the entries of the unit goes on as if the entry were not there.
\<close>
theorem unreadable_file_skipped:
  "read_text nd = None \<Longrightarrow>
     check_component_logic report file_path nd level = report
     \<and> check_imports report file_path nd level = report
     \<and> check_file component_path level (name, nd) report = report
     \<and> fold (check_file component_path level) (before @ (name, nd) # after) report =
         fold (check_file component_path level) (before @ after) report"
  by (simp add: check_component_logic_def check_imports_def check_file_def)

theorem unreadable_file_skipped_witness:
  "read_text (File None) = None
   \<and> check_component_logic empty_report ''A.tsx'' (File None) ''atoms'' = empty_report
   \<and> check_imports empty_report ''A.tsx'' (File None) ''atoms'' = empty_report
   \<and> check_file ''Button'' ''atoms'' (''A.tsx'', File None) empty_report = empty_report
   \<and> fold (check_file ''Button'' ''atoms'')
         ([] @ (''A.tsx'', File None) # [(''B.tsx'', File (Some ex_busy))]) empty_report =
       fold (check_file ''Button'' ''atoms'') ([] @ [(''B.tsx'', File (Some ex_busy))])
         empty_report"
proof -
  have h: "read_text (File None) = None"
    by simp
  show ?thesis
    using unreadable_file_skipped [OF h, of empty_report "''A.tsx''" "''atoms''"
        "''Button''" "''A.tsx''" "[]" "[(''B.tsx'', File (Some ex_busy))]"] h
    by simp
qed

text \<open>
  Claim C5 fails on the same names: \<^verbatim>\<open>.jsx\<close> makes its directory a unit and is never handed
  to the logic check, so a content with three hooks and three functions leaves no logic
  violation in the report.
\<close>

theorem hidden_name_logic_unchecked:
  "units ex_hidden_busy ''atoms'' =
     [(''src/components/atoms/Form'', [(''.jsx'', File (Some ex_busy))])]
   \<and> has_component [''.jsx'']
   \<and> path_suffix ''.jsx'' = []
   \<and> hook_count ex_busy = 3 \<and> length (function_matches ex_busy) = 3
   \<and> analyze ex_hidden_busy =
       \<lparr>violations =
          [\<lparr>type = ''barrel'', path = ''src/components/atoms/Form'',
            message = ''Missing barrel file (index.ts)'', severity = ''warning''\<rparr>,
           \<lparr>type = ''test'', path = ''src/components/atoms/Form'',
            message = ''Missing test file'', severity = ''warning''\<rparr>],
        components_found = 1, components_with_tests = 0, components_with_barrels = 0\<rparr>"
  by code_simp

theorem hidden_name_logic_unchecked_witness:
  "filter (\<lambda>v. type v = ''logic'') (violations (analyze ex_hidden_busy)) = []"
  using hidden_name_logic_unchecked by simp




text \<open>
  Claim C10. One run of the dependency check on a file appends at most one violation for
  a forbidden tier, however many forbidden import statements the text holds.
\<close>
theorem check_imports_once_per_tier:
  "length (filter (\<lambda>v. type v = ''dependency'' \<and> path v = file_path
                        \<and> message v = capitalize level @ '' should not import from '' @ forbidden)
             (recorded report (check_imports report file_path nd level))) \<le> 1"
proof (cases "read_text nd")
  case None
  then show ?thesis
    by (simp add: recorded_check_imports dependency_part_def)
next
  case (Some content)
  let ?fs = "filter (\<lambda>f. re_search (import_pattern f) content) (forbidden_for level)"
  have "filter (\<lambda>v. type v = ''dependency'' \<and> path v = file_path
                  \<and> message v = capitalize level @ '' should not import from '' @ forbidden)
          (map (dependency_violation file_path level) ?fs)
        = map (dependency_violation file_path level) (filter (\<lambda>f. f = forbidden) ?fs)"
    by (simp add: filter_map comp_def dependency_violation_def)
  moreover have "length (filter (\<lambda>f. f = forbidden) ?fs) \<le> 1"
    by (rule filter_eq_distinct_le_1) (simp add: distinct_forbidden_for)
  ultimately show ?thesis
    using Some by (simp add: recorded_check_imports dependency_part_def)
qed

theorem check_imports_once_per_tier_witness:
  "str_count ex_two_imports ''/molecules/'' = 2
   \<and> recorded empty_report
        (check_imports empty_report ''A.tsx'' (File (Some ex_two_imports)) ''atoms'') =
       [\<lparr>type = ''dependency'', path = ''A.tsx'',
         message = ''Atoms should not import from molecules'', severity = ''error''\<rparr>]
   \<and> length (filter (\<lambda>v. type v = ''dependency'' \<and> path v = ''A.tsx''
                        \<and> message v = capitalize ''atoms'' @ '' should not import from ''
                            @ ''molecules'')
               (recorded empty_report
                  (check_imports empty_report ''A.tsx'' (File (Some ex_two_imports)) ''atoms'')))
       \<le> 1"
proof -
  have c: "str_count ex_two_imports ''/molecules/'' = 2"
    by code_simp
  have r: "recorded empty_report
        (check_imports empty_report ''A.tsx'' (File (Some ex_two_imports)) ''atoms'') =
       [\<lparr>type = ''dependency'', path = ''A.tsx'',
         message = ''Atoms should not import from molecules'', severity = ''error''\<rparr>]"
    by code_simp
  show ?thesis
    using check_imports_once_per_tier
      [of "''A.tsx''" "''atoms''" "''molecules''" empty_report "File (Some ex_two_imports)"]
      c r
    by blast
qed

text \<open>
  Claim C4. For a unit, the barrel check appends one warning of kind barrel exactly when
  none of the names \<^verbatim>\<open>index.ts\<close>, \<^verbatim>\<open>index.tsx\<close>, \<^verbatim>\<open>index.js\<close>, \<^verbatim>\<open>index.jsx\<close> is among the file
  names of the unit; otherwise it appends none and adds one to
  \<open>components_with_barrels\<close>.
\<close>
theorem barrel_check:
  "filter (\<lambda>v. type v = ''barrel'')
     (recorded report (analyze_component report (component_path, files) level)) =
     (if file_names files \<inter> {''index.ts'', ''index.tsx'', ''index.js'', ''index.jsx''} = {}
      then [\<lparr>type = ''barrel'', path = component_path,
             message = ''Missing barrel file (index.ts)'', severity = ''warning''\<rparr>]
      else [])
   \<and> components_with_barrels (analyze_component report (component_path, files) level) =
       components_with_barrels report
       + (if file_names files \<inter> {''index.ts'', ''index.tsx'', ''index.js'', ''index.jsx''} = {}
          then 0 else 1)"
proof -
  have "filter (\<lambda>v. type v = ''barrel'') (unit_part (component_path, files) level) =
          barrel_part (component_path, files)"
    by (simp add: unit_part_def barrel_part_def test_part_def filter_barrel_files)
  then have "filter (\<lambda>v. type v = ''barrel'')
      (recorded report (analyze_component report (component_path, files) level)) =
      barrel_part (component_path, files)"
    by (simp only: recorded_analyze_component)
  moreover have "components_with_barrels
      (analyze_component report (component_path, files) level) =
      components_with_barrels report + (if has_barrel files then 1 else 0)"
    by (simp add: analyze_component_eq)
  ultimately show ?thesis
    by (simp add: barrel_part_def has_barrel_def BARREL_FILES_def)
qed

theorem barrel_check_witness:
  "file_names ex_bare \<inter> {''index.ts'', ''index.tsx'', ''index.js'', ''index.jsx''} = {}
   \<and> filter (\<lambda>v. type v = ''barrel'')
        (recorded empty_report (analyze_component empty_report (''Button'', ex_bare) ''atoms'')) =
       [\<lparr>type = ''barrel'', path = ''Button'',
         message = ''Missing barrel file (index.ts)'', severity = ''warning''\<rparr>]
   \<and> components_with_barrels (analyze_component empty_report (''Button'', ex_bare) ''atoms'') = 0
   \<and> file_names ex_barrel \<inter> {''index.ts'', ''index.tsx'', ''index.js'', ''index.jsx''}
       = {''index.js''}
   \<and> filter (\<lambda>v. type v = ''barrel'')
        (recorded empty_report (analyze_component empty_report (''Button'', ex_barrel) ''atoms''))
       = []
   \<and> components_with_barrels (analyze_component empty_report (''Button'', ex_barrel) ''atoms'')
       = 1"
proof -
  have a: "file_names ex_bare \<inter> {''index.ts'', ''index.tsx'', ''index.js'', ''index.jsx''} = {}"
    by (simp add: file_names_def ex_bare_def)
  have b: "file_names ex_barrel \<inter> {''index.ts'', ''index.tsx'', ''index.js'', ''index.jsx''}
       = {''index.js''}"
    by (simp add: file_names_def ex_barrel_def)
  show ?thesis
    using barrel_check [of empty_report "''Button''" ex_bare "''atoms''"]
      barrel_check [of empty_report "''Button''" ex_barrel "''atoms''"] a b
    by (simp add: empty_report_def)
qed

text \<open>
  Claim C7. After a run, \<open>components_with_tests\<close> and \<open>components_with_barrels\<close> lie
  between 0 and \<open>components_found\<close>, which counts the located units; the analysis of
  one unit adds one to \<open>components_found\<close> and at most one to each of the other two.
\<close>
theorem counters_bounded:
  "0 \<le> components_with_tests (analyze env)
   \<and> components_with_tests (analyze env) \<le> components_found (analyze env)
   \<and> 0 \<le> components_with_barrels (analyze env)
   \<and> components_with_barrels (analyze env) \<le> components_found (analyze env)
   \<and> (components_exists env \<longrightarrow> components_found (analyze env) = int (length (all_units env)))
   \<and> components_found (analyze_component report component level) = components_found report + 1
   \<and> components_with_tests (analyze_component report component level)
       \<in> {components_with_tests report, components_with_tests report + 1}
   \<and> components_with_barrels (analyze_component report component level)
       \<in> {components_with_barrels report, components_with_barrels report + 1}"
proof (cases "components_exists env")
  case True
  then show ?thesis
    by (simp add: analyze_eq analyze_component_eq)
next
  case False
  then show ?thesis
    by (simp add: analyze_def empty_report_def analyze_component_eq)
qed

theorem counters_bounded_witness:
  "components_exists ex_clean
   \<and> components_found (analyze ex_clean) = 1
   \<and> components_with_tests (analyze ex_clean) = 1
   \<and> components_with_barrels (analyze ex_clean) = 1
   \<and> int (length (all_units ex_clean)) = 1
   \<and> components_found (analyze_component empty_report (''Button'', ex_bare) ''atoms'') = 1
   \<and> components_with_tests (analyze_component empty_report (''Button'', ex_bare) ''atoms'') = 0"
proof -
  have e: "components_exists ex_clean"
    by (simp add: ex_clean_def)
  have c: "components_with_tests (analyze ex_clean) = 1"
    "components_with_barrels (analyze ex_clean) = 1"
    "int (length (all_units ex_clean)) = 1"
    "components_with_tests (analyze_component empty_report (''Button'', ex_bare) ''atoms'') = 0"
    by code_simp+
  show ?thesis
    using counters_bounded [of ex_clean empty_report "(''Button'', ex_bare)" "''atoms''"] e c
    by (simp add: empty_report_def)
qed

text \<open>
  Claim C3. The locator yields exactly the directories that the walk reaches from the
  tier root, the root included, and that hold an entry which is not a directory, whose
  name ends with \<^verbatim>\<open>.tsx\<close> or \<^verbatim>\<open>.jsx\<close> and with none of the four test suffixes. Reaching a
  directory does not depend on whether the directories above it qualify. A tier root that
  does not exist yields nothing.
\<close>
theorem find_component_dirs_reachable:
  "set (find_component_dirs base_path (Some nd)) =
     {(p, d). reaches base_path nd p d \<and> qualifies d}
   \<and> find_component_dirs base_path None = []"
  by (auto simp: find_component_dirs_def has_component_iff
      dest: os_walk_reaches reaches_os_walk)

theorem find_component_dirs_reachable_witness:
  "{(p, d). reaches ''atoms'' ex_tree p d \<and> qualifies d} =
     {(''atoms/Button'', [(''Button.tsx'', File (Some [])),
                          (''Button.test.tsx'', File (Some []))]),
      (''atoms/util/deep'', [(''Icon.jsx'', Other)])}
   \<and> find_component_dirs ''atoms'' None = []"
proof -
  have "find_component_dirs ''atoms'' (Some ex_tree) =
     [(''atoms/Button'', [(''Button.tsx'', File (Some [])),
                          (''Button.test.tsx'', File (Some []))]),
      (''atoms/util/deep'', [(''Icon.jsx'', Other)])]"
    by code_simp
  then show ?thesis
    using find_component_dirs_reachable [of "''atoms''" ex_tree] by simp
qed

text \<open>
  Claim C6, as stated, fails: inside one unit a dependency violation of an earlier file
  comes before the logic violation of a later file.
\<close>
theorem check_order_counterexample:
  "violations (analyze ex_project) =
     [\<lparr>type = ''barrel'', path = ''src/components/atoms/Button'',
       message = ''Missing barrel file (index.ts)'', severity = ''warning''\<rparr>,
      \<lparr>type = ''test'', path = ''src/components/atoms/Button'',
       message = ''Missing test file'', severity = ''warning''\<rparr>,
      \<lparr>type = ''dependency'', path = ''src/components/atoms/Button/A.tsx'',
       message = ''Atoms should not import from molecules'', severity = ''error''\<rparr>,
      \<lparr>type = ''logic'', path = ''src/components/atoms/Button/B.tsx'',
       message =
         ''Component has 3 hooks and 3 functions. Consider extracting logic to a custom hook.'',
       severity = ''warning''\<rparr>]
   \<and> \<not> in_check_order (violations (analyze ex_project))"
  by code_simp

text \<open>
  Claim C6, amended. The violations of a report are in detection order: first the
  warnings for missing tier directories, in the order atoms, molecules, organisms; then
  the violations of the units, tier by tier in that order and, inside a tier, unit by unit
  in the order of the walk; inside a unit the barrel violation, then the test violation,
  then, for each checked file in listing order, its logic violation followed by its
  dependency violations.
\<close>

theorem analyze_detection_order:
  "components_exists env \<Longrightarrow>
     violations (analyze env) =
       structure_part env
       @ concat (map (\<lambda>level.
           concat (map (\<lambda>component.
               barrel_part component @ test_part component
               @ concat (map (\<lambda>file.
                     logic_part (joinpath (fst component) (fst file)) (snd file)
                     @ dependency_part (joinpath (fst component) (fst file)) (snd file) level)
                   (filter (\<lambda>file. is_checked_file (fst file)) (snd component))))
             (units env level)))
         [''atoms'', ''molecules'', ''organisms''])"
  by (simp add: analyze_eq detection_order_def level_part_def unit_part_def concat_file_part)

theorem analyze_detection_order_witness:
  "components_exists ex_layers
   \<and> violations (analyze ex_layers) =
       [\<lparr>type = ''structure'', path = ''src/components/organisms'',
         message = ''Missing organisms/ directory'', severity = ''warning''\<rparr>,
        \<lparr>type = ''test'', path = ''src/components/atoms/Button'',
         message = ''Missing test file'', severity = ''warning''\<rparr>,
        \<lparr>type = ''dependency'', path = ''src/components/atoms/Button/Button.tsx'',
         message = ''Atoms should not import from molecules'', severity = ''error''\<rparr>,
        \<lparr>type = ''barrel'', path = ''src/components/molecules/Card'',
         message = ''Missing barrel file (index.ts)'', severity = ''warning''\<rparr>,
        \<lparr>type = ''logic'', path = ''src/components/molecules/Card/Card.jsx'',
         message =
           ''Component has 3 hooks and 3 functions. Consider extracting logic to a custom hook.'',
         severity = ''warning''\<rparr>]"
proof -
  have h: "components_exists ex_layers"
    by (simp add: ex_layers_def)
  have r: "structure_part ex_layers
       @ concat (map (\<lambda>level.
           concat (map (\<lambda>component.
               barrel_part component @ test_part component
               @ concat (map (\<lambda>file.
                     logic_part (joinpath (fst component) (fst file)) (snd file)
                     @ dependency_part (joinpath (fst component) (fst file)) (snd file) level)
                   (filter (\<lambda>file. is_checked_file (fst file)) (snd component))))
             (units ex_layers level)))
         [''atoms'', ''molecules'', ''organisms'']) =
       [\<lparr>type = ''structure'', path = ''src/components/organisms'',
         message = ''Missing organisms/ directory'', severity = ''warning''\<rparr>,
        \<lparr>type = ''test'', path = ''src/components/atoms/Button'',
         message = ''Missing test file'', severity = ''warning''\<rparr>,
        \<lparr>type = ''dependency'', path = ''src/components/atoms/Button/Button.tsx'',
         message = ''Atoms should not import from molecules'', severity = ''error''\<rparr>,
        \<lparr>type = ''barrel'', path = ''src/components/molecules/Card'',
         message = ''Missing barrel file (index.ts)'', severity = ''warning''\<rparr>,
        \<lparr>type = ''logic'', path = ''src/components/molecules/Card/Card.jsx'',
         message =
           ''Component has 3 hooks and 3 functions. Consider extracting logic to a custom hook.'',
         severity = ''warning''\<rparr>]"
    by code_simp
  show ?thesis
    using analyze_detection_order [OF h] h r by simp
qed

end
